theory Spec2Isabelle
  imports Complex_Main "HOL-Library.Multiset"
begin

section \<open>Python values used by bayesian.py\<close>

text \<open>
  Scores and error fractions are Python floats. Comparison of floats is the order of the
  real numbers they denote, extended by the two infinities and by NaN, which compares
  false with everything. \<open>find_best_model\<close> itself creates \<open>float('-inf')\<close>, and
  \<open>np.mean\<close> of an empty array is NaN, so the special values are part of the model.
  Rounding of a finite result is not modelled: \<open>Fin x\<close> stands for the float nearest
  to \<open>x\<close>.
\<close>

datatype pyfloat = NaN | NegInf | Fin real | PosInf

text \<open>\<open>float_gt x y\<close> is Python's \<open>x > y\<close> on floats.\<close>

fun float_gt :: "pyfloat \<Rightarrow> pyfloat \<Rightarrow> bool" where
  "float_gt NaN y = False"
| "float_gt x NaN = False"
| "float_gt NegInf y = False"
| "float_gt (Fin x) NegInf = True"
| "float_gt (Fin x) (Fin y) = (y < x)"
| "float_gt (Fin x) PosInf = False"
| "float_gt PosInf PosInf = False"
| "float_gt PosInf y = True"

text \<open>\<open>float_ge x y\<close> is Python's \<open>x >= y\<close> on floats.\<close>

definition float_ge :: "pyfloat \<Rightarrow> pyfloat \<Rightarrow> bool" where
  "float_ge x y = (x \<noteq> NaN \<and> y \<noteq> NaN \<and> (x = y \<or> float_gt x y))"

text \<open>
  The exceptions the modelled calls raise. \<open>KeyError\<close> carries the labels pandas did not
  find, \<open>ValueError\<close> its message. \<open>OtherException\<close> stands for any further subclass of
  \<open>Exception\<close> a library call may raise, \<open>NonException\<close> for a \<open>BaseException\<close> that
  is not an \<open>Exception\<close> (\<open>KeyboardInterrupt\<close>, \<open>SystemExit\<close>): the handlers of
  bayesian.py are \<open>except Exception\<close>, which does not catch those.
\<close>

datatype py_exception =
    KeyError "string list"
  | ValueError string
  | OtherException string
  | NonException string

fun is_Exception :: "py_exception \<Rightarrow> bool" where
  "is_Exception (NonException name) = False"
| "is_Exception e = True"

text \<open>
  What a call does for its caller: it raises, or it returns a value, where
  \<open>Returned None\<close> is Python's \<open>None\<close>. \<open>error_log\<close> holds what \<open>logging.error\<close>
  was given. The \<open>print\<close> and \<open>logging.info\<close> lines of the source report progress
  only and are left out.
\<close>

datatype 'a outcome = Raised py_exception | Returned "'a option"

record 'a run =
  outcome :: "'a outcome"
  error_log :: "py_exception list"

text \<open>
  \<open>try: body (ending in return v) except Exception as e: logging.error(..., e)\<close>.
  The handler has no \<open>return\<close>, so after logging the function falls off its end and
  returns \<open>None\<close>.
\<close>

definition try_except_Exception :: "py_exception + 'a \<Rightarrow> 'a run" where
  "try_except_Exception body =
     (case body of
        Inr v \<Rightarrow> \<lparr>outcome = Returned (Some v), error_log = []\<rparr>
      | Inl e \<Rightarrow>
          if is_Exception e then \<lparr>outcome = Returned None, error_log = [e]\<rparr>
          else \<lparr>outcome = Raised e, error_log = []\<rparr>)"

section \<open>find_best_model\<close>

text \<open>
  The four best-so-far variables of \<open>find_best_model\<close>; the returned tuple is
  \<open>(best_model, best_method, best_score, best_iter)\<close>.
\<close>

record 'model best =
  best_model :: "'model option"
  best_score :: pyfloat
  best_method :: "string option"
  best_iter :: "int option"

definition initial_best :: "'model best" where
  "initial_best =
     \<lparr>best_model = None, best_score = NegInf, best_method = None, best_iter = None\<rparr>"

text \<open>
  The structure search and the scoring objects belong to pgmpy and are parameters:
  \<open>estimate train_data scoring_method max_iter\<close> is
  \<open>HillClimbSearch(train_data).estimate(scoring_method=..., max_iter=...)\<close> and
  \<open>score scoring_method model\<close> is \<open>scoring_method.score(model)\<close>.
  \<open>scoring_methods\<close> is a dict; \<open>.items()\<close> yields its pairs in insertion order, so
  it is a list of (name, scoring object) pairs.

  \<open>visit_cell\<close> is the body of the inner loop (lines 35 to 45).
\<close>

definition visit_cell ::
  "('sm \<Rightarrow> int \<Rightarrow> 'model) \<Rightarrow> ('sm \<Rightarrow> 'model \<Rightarrow> pyfloat) \<Rightarrow>
     int \<Rightarrow> string \<times> 'sm \<Rightarrow> 'model best \<Rightarrow> 'model best" where
  "visit_cell hc_estimate score max_iter item b =
     (case item of (method_name, scoring_method) \<Rightarrow>
        let model = hc_estimate scoring_method max_iter;
            s = score scoring_method model
        in if float_gt s (best_score b)
           then \<lparr>best_model = Some model, best_score = s,
                 best_method = Some method_name, best_iter = Some max_iter\<rparr>
           else b)"

text \<open>\<open>for method_name, scoring_method in scoring_methods.items()\<close> (line 33).\<close>

fun methods_loop ::
  "('sm \<Rightarrow> int \<Rightarrow> 'model) \<Rightarrow> ('sm \<Rightarrow> 'model \<Rightarrow> pyfloat) \<Rightarrow>
     int \<Rightarrow> (string \<times> 'sm) list \<Rightarrow> 'model best \<Rightarrow> 'model best" where
  "methods_loop hc_estimate score max_iter [] b = b"
| "methods_loop hc_estimate score max_iter (item # items) b =
     methods_loop hc_estimate score max_iter items
       (visit_cell hc_estimate score max_iter item b)"

text \<open>\<open>for max_iter in max_iters\<close> (line 32).\<close>

fun iters_loop ::
  "('sm \<Rightarrow> int \<Rightarrow> 'model) \<Rightarrow> ('sm \<Rightarrow> 'model \<Rightarrow> pyfloat) \<Rightarrow>
     (string \<times> 'sm) list \<Rightarrow> int list \<Rightarrow> 'model best \<Rightarrow> 'model best" where
  "iters_loop hc_estimate score scoring_methods [] b = b"
| "iters_loop hc_estimate score scoring_methods (max_iter # max_iters) b =
     iters_loop hc_estimate score scoring_methods max_iters
       (methods_loop hc_estimate score max_iter scoring_methods b)"

definition find_best_model ::
  "('data \<Rightarrow> 'sm \<Rightarrow> int \<Rightarrow> 'model) \<Rightarrow> ('sm \<Rightarrow> 'model \<Rightarrow> pyfloat) \<Rightarrow>
     'data \<Rightarrow> (string \<times> 'sm) list \<Rightarrow> int list \<Rightarrow> 'model best" where
  "find_best_model estimate score train_data scoring_methods max_iters =
     iters_loop (estimate train_data) score scoring_methods max_iters initial_best"

subsection \<open>The grid the two loops walk through\<close>

text \<open>
  The (budget, method) cells in the order the nested loops visit them: budgets in the
  given order, and for each budget the methods in insertion order.
\<close>

definition grid :: "(string \<times> 'sm) list \<Rightarrow> int list \<Rightarrow> (int \<times> string \<times> 'sm) list" where
  "grid scoring_methods max_iters =
     concat (map (\<lambda>max_iter. map (\<lambda>item. (max_iter, item)) scoring_methods) max_iters)"

text \<open>The score line 36 computes in a cell, and the tuple lines 42 to 45 store for it.\<close>

definition cell_score ::
  "('sm \<Rightarrow> int \<Rightarrow> 'model) \<Rightarrow> ('sm \<Rightarrow> 'model \<Rightarrow> pyfloat) \<Rightarrow> int \<times> string \<times> 'sm \<Rightarrow> pyfloat" where
  "cell_score hc_estimate score cell =
     (case cell of (max_iter, method_name, scoring_method) \<Rightarrow>
        score scoring_method (hc_estimate scoring_method max_iter))"

definition candidate ::
  "('sm \<Rightarrow> int \<Rightarrow> 'model) \<Rightarrow> ('sm \<Rightarrow> 'model \<Rightarrow> pyfloat) \<Rightarrow> int \<times> string \<times> 'sm \<Rightarrow> 'model best" where
  "candidate hc_estimate score cell =
     (case cell of (max_iter, method_name, scoring_method) \<Rightarrow>
        \<lparr>best_model = Some (hc_estimate scoring_method max_iter),
         best_score = score scoring_method (hc_estimate scoring_method max_iter),
         best_method = Some method_name, best_iter = Some max_iter\<rparr>)"

text \<open>The best-so-far variables after the cells of a list have been visited in order.\<close>

fun run_cells ::
  "('sm \<Rightarrow> int \<Rightarrow> 'model) \<Rightarrow> ('sm \<Rightarrow> 'model \<Rightarrow> pyfloat) \<Rightarrow>
     (int \<times> string \<times> 'sm) list \<Rightarrow> 'model best \<Rightarrow> 'model best" where
  "run_cells hc_estimate score [] b = b"
| "run_cells hc_estimate score (cell # cells) b =
     run_cells hc_estimate score cells
       (visit_cell hc_estimate score (fst cell) (snd cell) b)"

text \<open>
  The best-so-far variables of \<open>find_best_model\<close> at the point where \<open>k\<close> cells of the
  grid have been visited.
\<close>

definition best_after ::
  "('data \<Rightarrow> 'sm \<Rightarrow> int \<Rightarrow> 'model) \<Rightarrow> ('sm \<Rightarrow> 'model \<Rightarrow> pyfloat) \<Rightarrow>
     'data \<Rightarrow> (string \<times> 'sm) list \<Rightarrow> int list \<Rightarrow> nat \<Rightarrow> 'model best" where
  "best_after estimate score train_data scoring_methods max_iters k =
     run_cells (estimate train_data) score (take k (grid scoring_methods max_iters))
       initial_best"

section \<open>predict_value\<close>

text \<open>
  A pandas DataFrame, as far as \<open>predict_value\<close> looks at it: its columns in order,
  each a name with the values of its rows.
\<close>

type_synonym 'v dataframe = "(string \<times> 'v list) list"

definition columns :: "'v dataframe \<Rightarrow> string list" where
  "columns df = map fst df"

text \<open>
  \<open>df.drop(columns=labels)\<close>: a label that is not a column raises \<open>KeyError\<close> (pandas'
  default \<open>errors='raise'\<close>); otherwise every column with one of the labels is removed
  and the order of the others is kept.
\<close>

definition drop_columns :: "string list \<Rightarrow> 'v dataframe \<Rightarrow> py_exception + 'v dataframe" where
  "drop_columns labels df =
     (let missing = filter (\<lambda>label. label \<notin> set (columns df)) labels
      in if missing \<noteq> [] then Inl (KeyError missing)
         else Inr (filter (\<lambda>col. fst col \<notin> set labels) df))"

text \<open>\<open>df[key]\<close>: the column of that name, \<open>KeyError\<close> when there is none.\<close>

definition getitem :: "'v dataframe \<Rightarrow> string \<Rightarrow> py_exception + 'v list" where
  "getitem df key =
     (case map_of df key of None \<Rightarrow> Inl (KeyError [key]) | Some vs \<Rightarrow> Inr vs)"

text \<open>
  The fitted model is a pgmpy object; \<open>predict_value\<close> uses its \<open>nodes()\<close> and its
  \<open>predict\<close> method, whose inference belongs to the library and may raise.
\<close>

record 'v bayesian_network =
  nodes :: "string list"
  predict :: "'v dataframe \<Rightarrow> py_exception + 'v dataframe"

text \<open>
  The body of the \<open>try\<close> block (lines 61 to 74). Its first component lists the data
  frames handed to \<open>model_struct.predict\<close>, its second is the exception the body raises
  or the value it returns. A Python set has no duplicates and no fixed order; it is a
  duplicate-free list here, and \<open>drop_columns\<close> does not depend on the order of its labels.
\<close>

definition predict_value_body ::
  "'v bayesian_network \<Rightarrow> 'v dataframe \<Rightarrow> 'v dataframe list \<times> (py_exception + 'v list)" where
  "predict_value_body model_struct states =
     (let column_names_df1 = remdups (nodes model_struct);
          column_names_df2 = remdups (columns states);
          columns_only_in_df2 = filter (\<lambda>c. c \<notin> set column_names_df1) column_names_df2
      in case drop_columns (columns_only_in_df2 @ [''forecast'']) states of
           Inl e \<Rightarrow> ([], Inl e)
         | Inr data_new \<Rightarrow>
             (case predict model_struct data_new of
                Inl e \<Rightarrow> ([data_new], Inl e)
              | Inr prediction \<Rightarrow>
                  (case getitem prediction ''forecast'' of
                     Inl e \<Rightarrow> ([data_new], Inl e)
                   | Inr pred_value \<Rightarrow> ([data_new], Inr pred_value))))"

definition inference_inputs :: "'v bayesian_network \<Rightarrow> 'v dataframe \<Rightarrow> 'v dataframe list" where
  "inference_inputs model_struct states = fst (predict_value_body model_struct states)"

definition predict_value :: "'v bayesian_network \<Rightarrow> 'v dataframe \<Rightarrow> 'v list run" where
  "predict_value model_struct states =
     try_except_Exception (snd (predict_value_body model_struct states))"

section \<open>calculate_error\<close>

text \<open>
  One-dimensional arrays are lists. \<open>np.roll(a, shift)\<close> copies \<open>a[:-offset]\<close> to
  \<open>result[offset:]\<close> and \<open>a[-offset:]\<close> to \<open>result[:offset]\<close>, where \<open>offset\<close> is
  \<open>shift\<close> modulo the length.
\<close>

definition roll :: "'a list \<Rightarrow> nat \<Rightarrow> 'a list" where
  "roll a shift =
     (let n = length a
      in if n = 0 then []
         else let offset = shift mod n in drop (n - offset) a @ take (n - offset) a)"

text \<open>
  The arrays of the pipeline are numeric: the discretised states are \<open>int64\<close>, and a
  column with missing values is \<open>float64\<close>. An entry is an integer of an \<open>int64\<close>
  array or a float of a \<open>float64\<close> array; an array has one dtype, so the entries of one
  list carry one constructor.
\<close>

datatype scalar = IntV int | FloatV pyfloat

text \<open>\<open>x != y\<close> on two floats: NaN differs from everything, itself included.\<close>

definition float_ne :: "pyfloat \<Rightarrow> pyfloat \<Rightarrow> bool" where
  "float_ne x y = (x = NaN \<or> y = NaN \<or> x \<noteq> y)"

text \<open>
  Comparing an \<open>int64\<close> array with a \<open>float64\<close> array converts the integers to
  \<open>float64\<close> first. A \<open>float64\<close> has 53 significant bits: \<open>bits_above_53 m\<close> is the
  number of low bits of \<open>m\<close> that do not fit, and the conversion rounds them away to the
  nearest float, a tie to the even one.
\<close>

function bits_above_53 :: "nat \<Rightarrow> nat" where
  "bits_above_53 m = (if m < 2 ^ 53 then 0 else Suc (bits_above_53 (m div 2)))"
  by pat_completeness auto
termination
  by (relation "measure (\<lambda>m. m)") auto

declare bits_above_53.simps [simp del]

definition int_to_float64 :: "int \<Rightarrow> pyfloat" where
  "int_to_float64 a =
     (let e = bits_above_53 (nat \<bar>a\<bar>);
          q = a div 2 ^ e;
          r = a mod 2 ^ e;
          q' = (if 2 ^ e < 2 * r \<or> (2 * r = 2 ^ e \<and> odd q) then q + 1 else q)
      in Fin (real_of_int (q' * 2 ^ e)))"

text \<open>\<open>x != y\<close> on two entries, after NumPy's promotion to a common dtype.\<close>

fun np_ne :: "scalar \<Rightarrow> scalar \<Rightarrow> bool" where
  "np_ne (IntV a) (IntV b) = (a \<noteq> b)"
| "np_ne (IntV a) (FloatV y) = float_ne (int_to_float64 a) y"
| "np_ne (FloatV x) (IntV b) = float_ne x (int_to_float64 b)"
| "np_ne (FloatV x) (FloatV y) = float_ne x y"

text \<open>
  \<open>x != y\<close> on two one-dimensional arrays, with NumPy's broadcasting: equal lengths
  compare position by position, an array of length 1 is stretched to the other's length,
  and any other pair of lengths raises \<open>ValueError\<close> (NumPy 1.25 and later; earlier
  versions warned and gave the single value \<open>True\<close>, and raised nothing either).
\<close>

definition not_equal :: "scalar list \<Rightarrow> scalar list \<Rightarrow> py_exception + bool list" where
  "not_equal x y =
     (if length x = length y then Inr (map2 np_ne x y)
      else if length y = 1 then Inr (map (\<lambda>a. np_ne a (hd y)) x)
      else if length x = 1 then Inr (map (\<lambda>b. np_ne (hd x) b) y)
      else Inl (ValueError ''operands could not be broadcast together''))"

text \<open>
  \<open>np.mean\<close> of a boolean array: the share of \<open>True\<close> entries, and NaN for the empty
  array (NumPy warns there and does not raise).
\<close>

definition mean :: "bool list \<Rightarrow> pyfloat" where
  "mean bs =
     (if bs = [] then NaN
      else Fin (real (length (filter (\<lambda>b. b) bs)) / real (length bs)))"

text \<open>
  The body of the \<open>try\<close> block (lines 91 to 95). \<open>pred_value\<close> is \<open>None\<close> when
  \<open>predict_value\<close> returned nothing: \<open>np.roll(None, 1)\<close> is then a zero-dimensional
  array holding \<open>None\<close>, which differs from every entry of a numeric \<open>real\<close>.
\<close>

definition calculate_error_body ::
  "scalar list option \<Rightarrow> scalar list \<Rightarrow> py_exception + pyfloat" where
  "calculate_error_body pred_value real_values =
     (case pred_value of
        None \<Rightarrow> Inr (mean (replicate (length real_values) True))
      | Some p \<Rightarrow>
          (case not_equal real_values (roll p 1) of
             Inl e \<Rightarrow> Inl e
           | Inr differs \<Rightarrow> Inr (mean differs)))"

definition calculate_error :: "scalar list option \<Rightarrow> scalar list \<Rightarrow> pyfloat run" where
  "calculate_error pred_value real_values =
     try_except_Exception (calculate_error_body pred_value real_values)"

section \<open>Properties of find_best_model\<close>

text \<open>Python's \<open>>\<close> on floats is a strict order away from NaN.\<close>

lemma float_gt_irrefl: "\<not> float_gt x x"
  by (cases x) simp_all

lemma float_gt_trans: "float_gt x y \<Longrightarrow> float_gt y z \<Longrightarrow> float_gt x z"
  by (cases x; cases y; cases z) simp_all

lemma float_gt_not_NaN: "float_gt x y \<Longrightarrow> x \<noteq> NaN \<and> y \<noteq> NaN"
  by (cases x; cases y) simp_all

lemma float_gt_total: "x \<noteq> NaN \<Longrightarrow> y \<noteq> NaN \<Longrightarrow> x \<noteq> y \<Longrightarrow> float_gt x y \<or> float_gt y x"
  by (cases x; cases y) auto

lemma float_gt_NegInf: "float_gt x NegInf \<longleftrightarrow> x \<noteq> NaN \<and> x \<noteq> NegInf"
  by (cases x) simp_all

text \<open>
  One step of the iteration: the four variables are replaced together by the tuple of
  the cell, or none of them changes.
\<close>

lemma visit_cell_eq:
  "visit_cell e s (fst c) (snd c) b =
     (if float_gt (cell_score e s c) (best_score b) then candidate e s c else b)"
  by (cases c) (simp add: visit_cell_def cell_score_def candidate_def Let_def)

lemma best_score_candidate: "best_score (candidate e s c) = cell_score e s c"
  by (cases c) (simp add: candidate_def cell_score_def)

lemma run_cells_append:
  "run_cells e s (xs @ ys) b = run_cells e s ys (run_cells e s xs b)"
  by (induction xs arbitrary: b) simp_all

lemma run_cells_snoc:
  "run_cells e s (xs @ [c]) b = visit_cell e s (fst c) (snd c) (run_cells e s xs b)"
  by (simp add: run_cells_append)

text \<open>
  The nested loops visit the cells of \<open>grid\<close> in order.
\<close>

lemma methods_loop_run_cells:
  "methods_loop e s i ms b = run_cells e s (map (\<lambda>item. (i, item)) ms) b"
  by (induction ms arbitrary: b) simp_all

lemma iters_loop_run_cells:
  "iters_loop e s ms its b = run_cells e s (grid ms its) b"
  by (induction its arbitrary: b)
     (simp_all add: grid_def run_cells_append methods_loop_run_cells)

lemma find_best_model_run_cells:
  "find_best_model est s td ms its = run_cells (est td) s (grid ms its) initial_best"
  by (simp add: find_best_model_def iters_loop_run_cells)

lemma find_best_model_best_after:
  "find_best_model est s td ms its = best_after est s td ms its (length (grid ms its))"
  by (simp add: find_best_model_run_cells best_after_def)

text \<open>
  The invariant of the iteration. After any list of cells, either no cell scored above
  \<open>-inf\<close> and the variables still hold their initial values, or they hold the tuple of
  one cell \<open>k\<close>: it scored strictly above the best score of that moment, no cell
  scores strictly above it, and no earlier cell has its score.
\<close>

lemma run_cells_initial_inv:
  "(run_cells e s cells initial_best = initial_best \<and>
      (\<forall>c \<in> set cells. \<not> float_gt (cell_score e s c) NegInf)) \<or>
   (\<exists>k. (k < length cells \<and>
          float_gt (cell_score e s (cells ! k))
            (best_score (run_cells e s (take k cells) initial_best)) \<and>
          (\<forall>j < length cells. \<not> float_gt (cell_score e s (cells ! j)) (cell_score e s (cells ! k))) \<and>
          (\<forall>j < k. cell_score e s (cells ! j) \<noteq> cell_score e s (cells ! k))) \<and>
        run_cells e s cells initial_best = candidate e s (cells ! k))"
proof (induction cells rule: rev_induct)
  case Nil
  then show ?case by simp
next
  case (snoc c cells)
  let ?r = "run_cells e s cells initial_best"
  let ?sc = "cell_score e s"
  let ?chosen = "\<lambda>cells k. k < length cells \<and>
          float_gt (cell_score e s (cells ! k))
            (best_score (run_cells e s (take k cells) initial_best)) \<and>
          (\<forall>j < length cells. \<not> float_gt (cell_score e s (cells ! j)) (cell_score e s (cells ! k))) \<and>
          (\<forall>j < k. cell_score e s (cells ! j) \<noteq> cell_score e s (cells ! k))"
  show ?case
  proof (cases "float_gt (?sc c) (best_score ?r)")
    case True
    have new: "run_cells e s (cells @ [c]) initial_best = candidate e s c"
      using True by (simp add: run_cells_snoc visit_cell_eq)
    have bound: "\<not> float_gt (?sc x) (?sc c)" if xin: "x \<in> set cells" for x
    proof
      assume gx: "float_gt (?sc x) (?sc c)"
      from snoc.IH show False
      proof
        assume "?r = initial_best \<and> (\<forall>c \<in> set cells. \<not> float_gt (?sc c) NegInf)"
        moreover have "float_gt (?sc x) NegInf"
          using gx True float_gt_trans float_gt_NegInf float_gt_not_NaN
          by metis
        ultimately show False using xin by blast
      next
        assume "\<exists>k. ?chosen cells k \<and> ?r = candidate e s (cells ! k)"
        then obtain k where k: "?chosen cells k" "?r = candidate e s (cells ! k)" by blast
        have "float_gt (?sc c) (?sc (cells ! k))"
          using True k(2) by (simp add: best_score_candidate)
        then have "float_gt (?sc x) (?sc (cells ! k))"
          using gx float_gt_trans by blast
        moreover obtain j where "j < length cells" "cells ! j = x"
          using xin by (auto simp: in_set_conv_nth)
        ultimately show False using k(1) by auto
      qed
    qed
    have neq: "?sc x \<noteq> ?sc c" if xin: "x \<in> set cells" for x
    proof
      assume eq: "?sc x = ?sc c"
      from snoc.IH show False
      proof
        assume "?r = initial_best \<and> (\<forall>c \<in> set cells. \<not> float_gt (?sc c) NegInf)"
        then show False using True eq xin by (auto simp: initial_best_def)
      next
        assume "\<exists>k. ?chosen cells k \<and> ?r = candidate e s (cells ! k)"
        then obtain k where k: "?chosen cells k" "?r = candidate e s (cells ! k)" by blast
        have "float_gt (?sc x) (?sc (cells ! k))"
          using True k(2) eq by (simp add: best_score_candidate)
        moreover obtain j where "j < length cells" "cells ! j = x"
          using xin by (auto simp: in_set_conv_nth)
        ultimately show False using k(1) by auto
      qed
    qed
    have "?chosen (cells @ [c]) (length cells)"
      using True bound neq float_gt_irrefl
      by (auto simp: nth_append less_Suc_eq)
    then show ?thesis using new by (metis nth_append_length)
  next
    case False
    have same: "run_cells e s (cells @ [c]) initial_best = ?r"
      using False by (simp add: run_cells_snoc visit_cell_eq)
    from snoc.IH show ?thesis
    proof
      assume a: "?r = initial_best \<and> (\<forall>c \<in> set cells. \<not> float_gt (?sc c) NegInf)"
      then have "\<not> float_gt (?sc c) NegInf" using False by (simp add: initial_best_def)
      then show ?thesis using a same by auto
    next
      assume "\<exists>k. ?chosen cells k \<and> ?r = candidate e s (cells ! k)"
      then obtain k where k: "?chosen cells k" "?r = candidate e s (cells ! k)" by blast
      have "\<not> float_gt (?sc c) (?sc (cells ! k))"
        using False k(2) by (simp add: best_score_candidate)
      then have "?chosen (cells @ [c]) k"
        using k(1) by (auto simp: nth_append less_Suc_eq)
      moreover have "(cells @ [c]) ! k = cells ! k"
        using k(1) by (simp add: nth_append)
      ultimately show ?thesis using same k(2) by auto
    qed
  qed
qed

lemma float_gt_NegInf_left: "\<not> float_gt NegInf y"
  by (cases y) simp_all

lemma run_cells_initial_cases [case_names initial chosen]:
  obtains
    (initial) "run_cells e s cells initial_best = initial_best"
      "\<forall>c \<in> set cells. \<not> float_gt (cell_score e s c) NegInf"
  | (chosen) k where "k < length cells"
      "run_cells e s cells initial_best = candidate e s (cells ! k)"
      "float_gt (cell_score e s (cells ! k))
         (best_score (run_cells e s (take k cells) initial_best))"
      "\<forall>j < length cells. \<not> float_gt (cell_score e s (cells ! j)) (cell_score e s (cells ! k))"
      "\<forall>j < k. cell_score e s (cells ! j) \<noteq> cell_score e s (cells ! k)"
  using run_cells_initial_inv [of e s cells] by blast

lemma set_grid: "set (grid ms its) = {(i, item). i \<in> set its \<and> item \<in> set ms}"
  by (auto simp: grid_def)

lemma best_after_Suc:
  assumes "k < length (grid ms its)"
  shows "best_after est sc td ms its (Suc k) =
           visit_cell (est td) sc (fst (grid ms its ! k)) (snd (grid ms its ! k))
             (best_after est sc td ms its k)"
  using assms by (simp add: best_after_def take_Suc_conv_app_nth run_cells_snoc)

text \<open>
  The invariant without positions, as the comparison of two iteration orders needs it.
\<close>

lemma run_cells_cases:
  "(run_cells e s cells initial_best = initial_best \<and>
      (\<forall>c \<in> set cells. \<not> float_gt (cell_score e s c) NegInf)) \<or>
   (\<exists>c \<in> set cells. run_cells e s cells initial_best = candidate e s c \<and>
       float_gt (cell_score e s c) NegInf \<and>
       (\<forall>d \<in> set cells. \<not> float_gt (cell_score e s d) (cell_score e s c)))"
proof (cases rule: run_cells_initial_cases [of e s cells])
  case initial
  then show ?thesis by blast
next
  case (chosen k)
  have kin: "cells ! k \<in> set cells" using chosen(1) by simp
  have bound: "\<forall>d \<in> set cells. \<not> float_gt (cell_score e s d) (cell_score e s (cells ! k))"
  proof
    fix d assume "d \<in> set cells"
    then obtain j where "j < length cells" "cells ! j = d"
      by (auto simp: in_set_conv_nth)
    then show "\<not> float_gt (cell_score e s d) (cell_score e s (cells ! k))"
      using chosen(4) by blast
  qed
  have "cell_score e s (cells ! k) \<noteq> NaN \<and> cell_score e s (cells ! k) \<noteq> NegInf"
    using chosen(3) float_gt_not_NaN float_gt_NegInf_left by metis
  then have "float_gt (cell_score e s (cells ! k)) NegInf"
    by (simp add: float_gt_NegInf)
  then show ?thesis using kin bound chosen(2) by blast
qed

text \<open>
  Claim C1. A score is a real number (the spec's data model; \<open>Fin x\<close> here). For every
  non-empty grid of iteration budgets and scoring methods, \<open>find_best_model\<close> returns
  the tuple of a cell \<open>k\<close> of the grid whose score is \<open>\<ge>\<close> the score computed for every
  cell, and no cell before \<open>k\<close> in iteration order attains that score: when several
  cells attain the maximum, the earliest one is returned.
\<close>

theorem find_best_model_global_max:
  assumes budgets: "its \<noteq> []" and methods: "ms \<noteq> []"
    and scores: "\<forall>c \<in> set (grid ms its). \<exists>x. cell_score (est td) sc c = Fin x"
  shows "\<exists>k < length (grid ms its).
           find_best_model est sc td ms its = candidate (est td) sc (grid ms its ! k) \<and>
           (\<forall>c \<in> set (grid ms its).
              float_ge (best_score (find_best_model est sc td ms its))
                (cell_score (est td) sc c)) \<and>
           (\<forall>j < k. cell_score (est td) sc (grid ms its ! j) \<noteq>
                      cell_score (est td) sc (grid ms its ! k))"
proof -
  let ?g = "grid ms its"
  let ?r = "run_cells (est td) sc ?g initial_best"
  let ?sc = "cell_score (est td) sc"
  have r: "find_best_model est sc td ms its = ?r"
    by (rule find_best_model_run_cells)
  have above: "float_gt (?sc c) NegInf" if member: "c \<in> set ?g" for c
  proof -
    obtain x where "?sc c = Fin x" using scores member by blast
    then show ?thesis by simp
  qed
  have "hd its \<in> set its" and "hd ms \<in> set ms"
    using budgets methods by simp_all
  then have first: "(hd its, hd ms) \<in> set ?g"
    unfolding set_grid by simp
  have some: "\<exists>c \<in> set ?g. float_gt (?sc c) NegInf"
    using above [OF first] first by blast
  show ?thesis
  proof (cases rule: run_cells_initial_cases [of "est td" sc ?g])
    case initial
    from initial(2) some have False by blast
    then show ?thesis by (rule FalseE)
  next
    case (chosen k)
    have top: "?sc (?g ! k) \<noteq> NaN"
      using chosen(3) float_gt_not_NaN by blast
    have "float_ge (?sc (?g ! k)) (?sc c)" if cin: "c \<in> set ?g" for c
    proof -
      obtain j where j: "j < length ?g" "?g ! j = c"
        using cin by (auto simp: in_set_conv_nth)
      then have "\<not> float_gt (?sc c) (?sc (?g ! k))"
        using chosen(4) by blast
      moreover have "?sc c \<noteq> NaN"
        using above [OF cin] float_gt_not_NaN by blast
      ultimately show ?thesis
        using top float_gt_total [of "?sc (?g ! k)" "?sc c"] by (auto simp: float_ge_def)
    qed
    then have ge: "\<forall>c \<in> set ?g. float_ge (best_score ?r) (?sc c)"
      using chosen(2) by (simp add: best_score_candidate)
    have "k < length ?g \<and> ?r = candidate (est td) sc (?g ! k) \<and>
          (\<forall>c \<in> set ?g. float_ge (best_score ?r) (?sc c)) \<and>
          (\<forall>j < k. ?sc (?g ! j) \<noteq> ?sc (?g ! k))"
      using chosen(1) chosen(2) chosen(5) ge by (intro conjI)
    then show ?thesis unfolding r by (rule exI)
  qed
qed

text \<open>
  The theorem on two budgets and two methods, where the model of a cell is a number and
  the scores of the four cells are 5, 10, 10, 10 in iteration order: the second cell,
  budget 5 with \<open>BDeuScore\<close>, is returned.
\<close>

theorem find_best_model_global_max_witness:
  "float_ge
     (best_score (find_best_model (\<lambda>td sm i. sm * i) (\<lambda>sm m. Fin (real_of_int (min m 10))) ()
        [(''BicScore'', 1 :: int), (''BDeuScore'', 2)] [5, 10]))
     (cell_score (\<lambda>sm i. sm * i) (\<lambda>sm m. Fin (real_of_int (min m 10))) (10, ''BicScore'', 1)) \<and>
   find_best_model (\<lambda>td sm i. sm * i) (\<lambda>sm m. Fin (real_of_int (min m 10))) ()
     [(''BicScore'', 1 :: int), (''BDeuScore'', 2)] [5, 10] =
     candidate (\<lambda>sm i. sm * i) (\<lambda>sm m. Fin (real_of_int (min m 10))) (5, ''BDeuScore'', 2)"
proof -
  have h1: "[5, 10 :: int] \<noteq> []" and h2: "[(''BicScore'', 1 :: int), (''BDeuScore'', 2)] \<noteq> []"
    by simp_all
  have h3: "\<forall>c \<in> set (grid [(''BicScore'', 1 :: int), (''BDeuScore'', 2)] [5, 10]).
      \<exists>x. cell_score ((\<lambda>td sm i. sm * i) ()) (\<lambda>sm m. Fin (real_of_int (min m 10))) c = Fin x"
    by (simp add: grid_def cell_score_def)
  from find_best_model_global_max
    [of "[5, 10]" "[(''BicScore'', 1 :: int), (''BDeuScore'', 2)]" "(\<lambda>td sm i. sm * i)" "()"
        "(\<lambda>sm m. Fin (real_of_int (min m 10)))", OF h1 h2 h3]
  show ?thesis
    by (simp add: find_best_model_def best_after_def grid_def visit_cell_def initial_best_def
      cell_score_def candidate_def float_ge_def)
qed

text \<open>
  Claim C6. \<open>ms'\<close> holds the pairs of the dict \<open>ms\<close> in another insertion order (the keys
  of a dict are distinct). The best score is then the same on both orders. The returned
  tuples are equal whenever at most one cell of the grid attains that score, and whenever
  the reported method and budget agree: a difference is one of method or budget, and
  needs a maximum attained by more than one cell.
\<close>

theorem best_score_order_independent:
  assumes keys: "distinct (map fst ms)"
    and perm: "mset ms' = mset ms"
  shows "best_score (find_best_model est sc td ms' its) =
           best_score (find_best_model est sc td ms its) \<and>
         (length (filter (\<lambda>c. cell_score (est td) sc c =
                     best_score (find_best_model est sc td ms its)) (grid ms its)) \<le> 1 \<longrightarrow>
            find_best_model est sc td ms' its = find_best_model est sc td ms its) \<and>
         (best_method (find_best_model est sc td ms' its) =
            best_method (find_best_model est sc td ms its) \<and>
          best_iter (find_best_model est sc td ms' its) =
            best_iter (find_best_model est sc td ms its) \<longrightarrow>
            find_best_model est sc td ms' its = find_best_model est sc td ms its)"
proof -
  let ?g = "grid ms its" and ?g' = "grid ms' its"
  let ?e = "est td"
  let ?r = "run_cells ?e sc ?g initial_best" and ?r' = "run_cells ?e sc ?g' initial_best"
  let ?sc = "cell_score ?e sc"
  have sets: "set ms' = set ms" using perm by (rule mset_eq_setD)
  then have gs: "set ?g' = set ?g" by (simp add: set_grid)
  have fb: "find_best_model est sc td ms its = ?r" "find_best_model est sc td ms' its = ?r'"
    by (simp_all add: find_best_model_run_cells)
  consider
    (ii) "?r = initial_best" "?r' = initial_best"
  | (cc) c c' where "c \<in> set ?g" "c' \<in> set ?g" "?r = candidate ?e sc c" "?r' = candidate ?e sc c'"
      "?sc c = ?sc c'"
  proof -
    from run_cells_cases [of ?e sc ?g] run_cells_cases [of ?e sc ?g'] gs
    consider
      (a) "?r = initial_best" "?r' = initial_best"
    | (b) "\<forall>c \<in> set ?g. \<not> float_gt (?sc c) NegInf" "\<exists>c \<in> set ?g. float_gt (?sc c) NegInf"
    | (c) c c' where "c \<in> set ?g" "c' \<in> set ?g" "?r = candidate ?e sc c" "?r' = candidate ?e sc c'"
        "float_gt (?sc c) NegInf" "float_gt (?sc c') NegInf"
        "\<not> float_gt (?sc c') (?sc c)" "\<not> float_gt (?sc c) (?sc c')"
      by blast
    then show ?thesis
    proof cases
      case a then show ?thesis by (rule ii)
    next
      case b then show ?thesis by blast
    next
      case c
      then have "?sc c = ?sc c'"
        using float_gt_total [of "?sc c" "?sc c'"] by (auto simp: float_gt_NegInf)
      with c show ?thesis by (intro cc [of c c']) simp_all
    qed
  qed
  then show ?thesis
  proof cases
    case ii
    then show ?thesis using fb by simp
  next
    case cc
    have score: "best_score ?r' = best_score ?r"
      using cc by (simp add: best_score_candidate)
    have uniq: "?r' = ?r"
      if "length (filter (\<lambda>x. ?sc x = best_score ?r) ?g) \<le> 1"
    proof -
      let ?f = "filter (\<lambda>x. ?sc x = best_score ?r) ?g"
      have "c \<in> set ?f" "c' \<in> set ?f"
        using cc by (simp_all add: best_score_candidate)
      moreover have "\<exists>x. set ?f \<subseteq> {x}"
        using that by (cases ?f) (auto simp: le_Suc_eq)
      ultimately have "c = c'" by blast
      then show ?thesis using cc by simp
    qed
    have names: "?r' = ?r"
      if "best_method ?r' = best_method ?r" "best_iter ?r' = best_iter ?r"
    proof -
      obtain i n m where c: "c = (i, n, m)" by (cases c)
      obtain i' n' m' where c': "c' = (i', n', m')" by (cases c')
      have "i' = i" "n' = n" using that cc c c' by (simp_all add: candidate_def)
      moreover have "(n, m) \<in> set ms" "(n', m') \<in> set ms"
        using cc c c' by (simp_all add: set_grid)
      ultimately have "m' = m" using keys by (metis eq_key_imp_eq_value)
      then show ?thesis using cc c c' \<open>i' = i\<close> \<open>n' = n\<close> by simp
    qed
    from score uniq names fb show ?thesis by simp
  qed
qed

text \<open>
  The theorem where every cell scores 7: the two insertion orders report the same score
  and different methods.
\<close>

theorem best_score_order_independent_witness:
  "best_score (find_best_model (\<lambda>td sm i. sm * i) (\<lambda>sm m. Fin 7) ()
      [(''BDeuScore'', 2 :: int), (''BicScore'', 1)] [5, 10]) =
     best_score (find_best_model (\<lambda>td sm i. sm * i) (\<lambda>sm m. Fin 7) ()
       [(''BicScore'', 1 :: int), (''BDeuScore'', 2)] [5, 10]) \<and>
   best_method (find_best_model (\<lambda>td sm i. sm * i) (\<lambda>sm m. Fin 7) ()
      [(''BicScore'', 1 :: int), (''BDeuScore'', 2)] [5, 10]) = Some ''BicScore'' \<and>
   best_method (find_best_model (\<lambda>td sm i. sm * i) (\<lambda>sm m. Fin 7) ()
      [(''BDeuScore'', 2 :: int), (''BicScore'', 1)] [5, 10]) = Some ''BDeuScore''"
proof -
  have h1: "distinct (map fst [(''BicScore'', 1 :: int), (''BDeuScore'', 2)])" by simp
  have h2: "mset [(''BDeuScore'', 2 :: int), (''BicScore'', 1)] =
      mset [(''BicScore'', 1 :: int), (''BDeuScore'', 2)]" by simp
  from best_score_order_independent
    [OF h1 h2, of "(\<lambda>td sm i. sm * i)" "(\<lambda>sm m. Fin 7)" "()" "[5, 10]"]
  show ?thesis
    by (simp add: find_best_model_def best_after_def grid_def visit_cell_def initial_best_def
      cell_score_def candidate_def float_ge_def)
qed

text \<open>
  Claim C7. The best score starts at \<open>-inf\<close>, and a score is a real number. So on every
  non-empty grid the candidate of the very first cell becomes the best tuple: its
  structure, score, method and budget replace the four initial values, and the rest of
  the grid is visited from there.
\<close>

theorem first_cell_becomes_best:
  assumes "cell_score (est td) sc (i, n, m) = Fin x"
  shows "best_after est sc td ((n, m) # ms) (i # its) 1 = candidate (est td) sc (i, n, m) \<and>
         find_best_model est sc td ((n, m) # ms) (i # its) =
           run_cells (est td) sc (tl (grid ((n, m) # ms) (i # its)))
             (candidate (est td) sc (i, n, m))"
proof -
  have g: "grid ((n, m) # ms) (i # its) = (i, n, m) # tl (grid ((n, m) # ms) (i # its))"
    by (simp add: grid_def)
  have v: "visit_cell (est td) sc i (n, m) initial_best = candidate (est td) sc (i, n, m)"
    using assms visit_cell_eq [of "est td" sc "(i, n, m)" initial_best]
    by (simp add: initial_best_def)
  have "best_after est sc td ((n, m) # ms) (i # its) 1 = candidate (est td) sc (i, n, m)"
    unfolding best_after_def by (subst g) (simp add: v)
  moreover have "find_best_model est sc td ((n, m) # ms) (i # its) =
           run_cells (est td) sc (tl (grid ((n, m) # ms) (i # its)))
             (candidate (est td) sc (i, n, m))"
    unfolding find_best_model_run_cells by (subst g) (simp add: v)
  ultimately show ?thesis by simp
qed

text \<open>The theorem on the grid of scores 5, 10, 10, 10.\<close>

theorem first_cell_becomes_best_witness:
  "best_after (\<lambda>td sm i. sm * i) (\<lambda>sm m. Fin (real_of_int (min m 10))) ()
     [(''BicScore'', 1 :: int), (''BDeuScore'', 2)] [5, 10] 1 =
     candidate (\<lambda>sm i. sm * i) (\<lambda>sm m. Fin (real_of_int (min m 10))) (5, ''BicScore'', 1)"
proof -
  have h: "cell_score ((\<lambda>td sm i. sm * i) ()) (\<lambda>sm m. Fin (real_of_int (min m 10)))
      (5, ''BicScore'', 1) = Fin 5"
    by (simp add: cell_score_def)
  from first_cell_becomes_best
    [of "(\<lambda>td sm i. sm * i)" "()" "(\<lambda>sm m. Fin (real_of_int (min m 10)))" 5
        "''BicScore''" 1 5 "[(''BDeuScore'', 2)]" "[10]", OF h]
  show ?thesis by simp
qed

text \<open>
  Claim C8. At every point of the iteration (after \<open>k\<close> cells, for every \<open>k\<close>) the four
  best-so-far fields are either all the initial values or all the tuple of one cell
  already visited, whose recomputed score was strictly higher than the best score at the
  time it was visited. Each step either leaves all four unchanged or replaces all four by
  the tuple of the cell just visited; the value returned is the state after the last cell.
\<close>

theorem best_fields_updated_together:
  "(best_after est sc td ms its k = initial_best \<or>
      (\<exists>j. j < k \<and> j < length (grid ms its) \<and>
           best_after est sc td ms its k = candidate (est td) sc (grid ms its ! j) \<and>
           float_gt (cell_score (est td) sc (grid ms its ! j))
             (best_score (best_after est sc td ms its j)))) \<and>
   (k < length (grid ms its) \<longrightarrow>
      best_after est sc td ms its (Suc k) = best_after est sc td ms its k \<or>
      (best_after est sc td ms its (Suc k) = candidate (est td) sc (grid ms its ! k) \<and>
       float_gt (cell_score (est td) sc (grid ms its ! k))
         (best_score (best_after est sc td ms its k)))) \<and>
   find_best_model est sc td ms its = best_after est sc td ms its (length (grid ms its))"
proof -
  let ?g = "grid ms its"
  let ?cells = "take k ?g"
  have first: "best_after est sc td ms its k = initial_best \<or>
      (\<exists>j. j < k \<and> j < length ?g \<and>
           best_after est sc td ms its k = candidate (est td) sc (?g ! j) \<and>
           float_gt (cell_score (est td) sc (?g ! j))
             (best_score (best_after est sc td ms its j)))"
  proof (cases rule: run_cells_initial_cases [of "est td" sc ?cells])
    case initial
    then show ?thesis by (simp add: best_after_def)
  next
    case (chosen j)
    from chosen(1) have lt: "j < k" "j < length ?g" by simp_all
    then have tk: "take j ?cells = take j ?g" "?cells ! j = ?g ! j"
      by (simp_all add: min_def)
    from chosen(3) have "float_gt (cell_score (est td) sc (?g ! j))
           (best_score (best_after est sc td ms its j))"
      using tk by (simp add: best_after_def)
    then show ?thesis using chosen(2) lt tk by (auto simp: best_after_def)
  qed
  have second: "k < length ?g \<longrightarrow>
      best_after est sc td ms its (Suc k) = best_after est sc td ms its k \<or>
      (best_after est sc td ms its (Suc k) = candidate (est td) sc (?g ! k) \<and>
       float_gt (cell_score (est td) sc (?g ! k))
         (best_score (best_after est sc td ms its k)))"
    by (simp add: best_after_Suc visit_cell_eq)
  from first second find_best_model_best_after [of est sc td ms its]
  show ?thesis by blast
qed

text \<open>
  The theorem on two budgets and two methods, where the model of a cell is a number and
  the scores of the four cells are 5, 10, 10, 10 in iteration order. After two cells the
  second cell is the best, the third cell changes nothing, and the result is the state
  after the fourth.
\<close>

theorem best_fields_updated_together_witness:
  "best_after (\<lambda>td sm i. sm * i) (\<lambda>sm m. Fin (real_of_int (min m 10))) ()
     [(''BicScore'', 1 :: int), (''BDeuScore'', 2)] [5, 10] 2 =
     candidate (\<lambda>sm i. sm * i) (\<lambda>sm m. Fin (real_of_int (min m 10)))
       (grid [(''BicScore'', 1 :: int), (''BDeuScore'', 2)] [5, 10] ! 1) \<and>
   best_after (\<lambda>td sm i. sm * i) (\<lambda>sm m. Fin (real_of_int (min m 10))) ()
     [(''BicScore'', 1 :: int), (''BDeuScore'', 2)] [5, 10] 3 =
     best_after (\<lambda>td sm i. sm * i) (\<lambda>sm m. Fin (real_of_int (min m 10))) ()
       [(''BicScore'', 1 :: int), (''BDeuScore'', 2)] [5, 10] 2 \<and>
   find_best_model (\<lambda>td sm i. sm * i) (\<lambda>sm m. Fin (real_of_int (min m 10))) ()
     [(''BicScore'', 1 :: int), (''BDeuScore'', 2)] [5, 10] =
     best_after (\<lambda>td sm i. sm * i) (\<lambda>sm m. Fin (real_of_int (min m 10))) ()
       [(''BicScore'', 1 :: int), (''BDeuScore'', 2)] [5, 10] 4"
  using best_fields_updated_together
    [of "(\<lambda>td sm i. sm * i)" "(\<lambda>sm m. Fin (real_of_int (min m 10)))" "()"
        "[(''BicScore'', 1 :: int), (''BDeuScore'', 2)]" "[5, 10]" 2]
  by (simp add: find_best_model_def best_after_def grid_def visit_cell_def initial_best_def
      cell_score_def candidate_def float_ge_def numeral_2_eq_2 numeral_3_eq_3)

section \<open>Properties of predict_value\<close>

text \<open>
  When the query has a column \<open>forecast\<close>, line 65 keeps exactly the columns that are
  nodes of the model and are not named \<open>forecast\<close>.
\<close>

lemma drop_columns_reconcile:
  assumes "''forecast'' \<in> set (columns states)"
  shows "drop_columns
           (filter (\<lambda>c. c \<notin> set (remdups ns)) (remdups (columns states)) @ [''forecast''])
           states =
         Inr (filter (\<lambda>col. fst col \<in> set ns \<and> fst col \<noteq> ''forecast'') states)"
proof -
  let ?labels = "filter (\<lambda>c. c \<notin> set (remdups ns)) (remdups (columns states)) @ [''forecast'']"
  have "filter (\<lambda>label. label \<notin> set (columns states)) ?labels = []"
    using assms by (auto simp: filter_empty_conv)
  moreover have "filter (\<lambda>col. fst col \<notin> set ?labels) states =
        filter (\<lambda>col. fst col \<in> set ns \<and> fst col \<noteq> ''forecast'') states"
    by (rule filter_cong) (auto simp: columns_def)
  ultimately show ?thesis by (simp add: drop_columns_def Let_def)
qed

text \<open>
  When it has none, \<open>drop\<close> raises \<open>KeyError\<close> for the label \<open>forecast\<close>.
\<close>

lemma drop_columns_no_forecast:
  assumes "''forecast'' \<notin> set (columns states)"
  shows "drop_columns
           (filter (\<lambda>c. c \<notin> set (remdups ns)) (remdups (columns states)) @ [''forecast''])
           states = Inl (KeyError [''forecast''])"
proof -
  let ?labels = "filter (\<lambda>c. c \<notin> set (remdups ns)) (remdups (columns states)) @ [''forecast'']"
  have "filter (\<lambda>label. label \<notin> set (columns states))
          (filter (\<lambda>c. c \<notin> set (remdups ns)) (remdups (columns states))) = []"
    by (auto simp: filter_empty_conv)
  then have "filter (\<lambda>label. label \<notin> set (columns states)) ?labels = [''forecast'']"
    using assms by simp
  then show ?thesis by (simp add: drop_columns_def Let_def)
qed

lemma inference_inputs_forecast:
  assumes "''forecast'' \<in> set (columns states)"
  shows "inference_inputs m states =
           [filter (\<lambda>col. fst col \<in> set (nodes m) \<and> fst col \<noteq> ''forecast'') states]"
  using drop_columns_reconcile [OF assms, of "nodes m"]
  by (simp add: inference_inputs_def predict_value_body_def Let_def split: sum.splits)

lemma inference_inputs_no_forecast:
  assumes "''forecast'' \<notin> set (columns states)"
  shows "inference_inputs m states = []"
  using drop_columns_no_forecast [OF assms, of "nodes m"]
  by (simp add: inference_inputs_def predict_value_body_def Let_def)

text \<open>
  Claim C3. For every model and every query with a column named \<open>forecast\<close>, the
  model's \<open>predict\<close> is called once, on the query restricted to the columns that are nodes
  of the model and are not named \<open>forecast\<close>. So no data frame handed to \<open>predict\<close> has
  a column \<open>forecast\<close>, also when \<open>forecast\<close> is a node, nor a column that is not a node.
\<close>

theorem predict_value_inference_input:
  "(''forecast'' \<in> set (columns states) \<longrightarrow>
      inference_inputs m states =
        [filter (\<lambda>col. fst col \<in> set (nodes m) \<and> fst col \<noteq> ''forecast'') states]) \<and>
   (\<forall>d \<in> set (inference_inputs m states).
      ''forecast'' \<notin> set (columns d) \<and> set (columns d) \<subseteq> set (nodes m))"
proof (cases "''forecast'' \<in> set (columns states)")
  case True
  show ?thesis
    using True by (auto simp: inference_inputs_forecast columns_def)
next
  case False
  then show ?thesis by (simp add: inference_inputs_no_forecast)
qed

text \<open>
  The theorem on a model with the node \<open>forecast\<close> and a query with the columns
  \<open>Close\<close>, \<open>Open\<close> and \<open>forecast\<close>.
\<close>

theorem predict_value_inference_input_witness:
  "inference_inputs
     \<lparr>nodes = [''Close'', ''Volume'', ''forecast''], predict = (\<lambda>d. Inr [(''forecast'', [1 :: int, 0])])\<rparr>
     [(''Close'', [3, 4]), (''Open'', [5, 6]), (''forecast'', [1, 1])] =
   [[(''Close'', [3, 4])]]"
  using predict_value_inference_input
    [of "[(''Close'', [3, 4 :: int]), (''Open'', [5, 6]), (''forecast'', [1, 1])]"
        "\<lparr>nodes = [''Close'', ''Volume'', ''forecast''], predict = (\<lambda>d. Inr [(''forecast'', [1 :: int, 0])])\<rparr>"]
  by (simp add: columns_def)

text \<open>
  Claim C4. Whenever a step of the body raises an error (an exception derived from
  \<open>Exception\<close>), \<open>predict_value\<close> logs it and returns \<open>None\<close>; nothing reaches the
  caller. That is so when the reconciliation fails, which it does for a query without a
  column \<open>forecast\<close>, and when the model's inference raises.
\<close>

theorem predict_value_failure_is_logged:
  "(snd (predict_value_body m states) = Inl e \<and> is_Exception e \<longrightarrow>
      predict_value m states = \<lparr>outcome = Returned None, error_log = [e]\<rparr>) \<and>
   (''forecast'' \<notin> set (columns states) \<longrightarrow>
      predict_value m states =
        \<lparr>outcome = Returned None, error_log = [KeyError [''forecast'']]\<rparr>) \<and>
   (''forecast'' \<in> set (columns states) \<and>
    predict m (filter (\<lambda>col. fst col \<in> set (nodes m) \<and> fst col \<noteq> ''forecast'') states) = Inl e \<and>
    is_Exception e \<longrightarrow>
      predict_value m states = \<lparr>outcome = Returned None, error_log = [e]\<rparr>)"
proof (intro conjI impI)
  assume "snd (predict_value_body m states) = Inl e \<and> is_Exception e"
  then show "predict_value m states = \<lparr>outcome = Returned None, error_log = [e]\<rparr>"
    by (simp add: predict_value_def try_except_Exception_def)
next
  assume a: "''forecast'' \<notin> set (columns states)"
  show "predict_value m states =
        \<lparr>outcome = Returned None, error_log = [KeyError [''forecast'']]\<rparr>"
    using drop_columns_no_forecast [OF a, of "nodes m"]
    by (simp add: predict_value_def predict_value_body_def Let_def try_except_Exception_def)
next
  assume a: "''forecast'' \<in> set (columns states) \<and>
    predict m (filter (\<lambda>col. fst col \<in> set (nodes m) \<and> fst col \<noteq> ''forecast'') states) = Inl e \<and>
    is_Exception e"
  then show "predict_value m states = \<lparr>outcome = Returned None, error_log = [e]\<rparr>"
    using drop_columns_reconcile [of states "nodes m"]
    by (simp add: predict_value_def predict_value_body_def Let_def try_except_Exception_def)
qed

text \<open>
  The theorem on a query without the column \<open>forecast\<close> and on a model whose inference
  raises \<open>ValueError\<close>.
\<close>

theorem predict_value_failure_is_logged_witness:
  "predict_value
     \<lparr>nodes = [''Close'', ''forecast''], predict = (\<lambda>d. Inr [(''forecast'', [1 :: int, 0])])\<rparr>
     [(''Close'', [3, 4]), (''Open'', [5, 6])] =
     \<lparr>outcome = Returned None, error_log = [KeyError [''forecast'']]\<rparr> \<and>
   predict_value
     \<lparr>nodes = [''Close'', ''forecast''],
      predict = (\<lambda>d. Inl (ValueError ''Data has variables which are not in the model''))\<rparr>
     [(''Close'', [3, 4 :: int]), (''forecast'', [5, 6])] =
     \<lparr>outcome = Returned None,
      error_log = [ValueError ''Data has variables which are not in the model'']\<rparr>"
  using predict_value_failure_is_logged
      [of "\<lparr>nodes = [''Close'', ''forecast''], predict = (\<lambda>d. Inr [(''forecast'', [1 :: int, 0])])\<rparr>"
          "[(''Close'', [3, 4]), (''Open'', [5, 6])]" "KeyError [''forecast'']"]
    predict_value_failure_is_logged
      [of "\<lparr>nodes = [''Close'', ''forecast''],
            predict = (\<lambda>d. Inl (ValueError ''Data has variables which are not in the model''))\<rparr>"
          "[(''Close'', [3, 4 :: int]), (''forecast'', [5, 6])]"
          "ValueError ''Data has variables which are not in the model''"]
  by (simp add: columns_def)

section \<open>Properties of calculate_error\<close>

lemma length_roll: "length (roll a k) = length a"
  by (simp add: roll_def Let_def)

text \<open>Rolling by one puts the entry of position \<open>(i - 1) mod n\<close> at position \<open>i\<close>.\<close>

lemma roll_1_nth:
  assumes "i < length a"
  shows "roll a 1 ! i = a ! nat ((int i - 1) mod int (length a))"
proof (cases "length a = 1")
  case True
  then have "i = 0" using assms by simp
  then show ?thesis using True by (simp add: roll_def)
next
  case False
  then have n: "2 \<le> length a" using assms by simp
  then have off: "1 mod length a = 1" by simp
  show ?thesis
  proof (cases "i = 0")
    case True
    have "0 < int (length a)" using n by auto
    then have "(int 0 - 1) mod int (length a) = int (length a) - 1"
      using zmod_minus1 [of "int (length a)"] by simp
    then show ?thesis
      using True n off by (auto simp: roll_def Let_def nth_append nat_diff_distrib)
  next
    case False
    then have "(int i - 1) mod int (length a) = int i - 1"
      using assms by simp
    then show ?thesis
      using False n off assms by (auto simp: roll_def Let_def nth_append nat_diff_distrib)
  qed
qed

lemma count_map2:
  assumes "length xs = length ys"
  shows "length (filter (\<lambda>b. b) (map2 f xs ys)) =
         length (filter (\<lambda>i. f (xs ! i) (ys ! i)) [0..<length xs])"
proof -
  have "map2 f xs ys = map (\<lambda>i. f (xs ! i) (ys ! i)) [0..<length xs]"
    using assms by (intro nth_equalityI) simp_all
  then show ?thesis by (simp add: filter_map comp_def)
qed

text \<open>
  The conversion of an integer to \<open>float64\<close> is exact below \<open>2^53\<close> and rounds above:
  \<open>2^53 + 1\<close> becomes \<open>2^53\<close>.
\<close>

lemma int_to_float64_exact:
  assumes "\<bar>a\<bar> < 2 ^ 53"
  shows "int_to_float64 a = Fin (real_of_int a)"
proof -
  have "nat \<bar>a\<bar> < 2 ^ 53" using assms by (simp add: nat_less_iff)
  then have "bits_above_53 (nat \<bar>a\<bar>) = 0"
    by (subst bits_above_53.simps) simp
  then show ?thesis by (simp add: int_to_float64_def)
qed

lemma int_to_float64_rounds: "int_to_float64 (2 ^ 53 + 1) = Fin (2 ^ 53)"
proof -
  have "bits_above_53 (nat \<bar>2 ^ 53 + 1\<bar>) = Suc 0"
    by (subst bits_above_53.simps, subst bits_above_53.simps) simp
  then show ?thesis by (simp add: int_to_float64_def)
qed

text \<open>An entry differs from itself exactly when it is NaN.\<close>

lemma np_ne_same: "np_ne x x \<longleftrightarrow> x = FloatV NaN"
  by (cases x) (auto simp: float_ne_def)

text \<open>What \<open>calculate_error\<close> returns on two arrays of one length, at least 1.\<close>

lemma calculate_error_equal_length:
  assumes "length predicted = length actual" and "actual \<noteq> []"
  shows "calculate_error (Some predicted) actual =
          \<lparr>outcome = Returned (Some (Fin
             (real (length (filter
                (\<lambda>i. np_ne (actual ! i)
                       (predicted ! nat ((int i - 1) mod int (length actual))))
                [0..<length actual])) / real (length actual)))),
           error_log = []\<rparr>"
proof -
  let ?k = "length (filter
     (\<lambda>i. np_ne (actual ! i) (predicted ! nat ((int i - 1) mod int (length actual))))
     [0..<length actual])"
  have len: "length actual = length (roll predicted 1)"
    using assms by (simp add: length_roll)
  have "length (filter (\<lambda>b. b) (map2 np_ne actual (roll predicted 1))) =
        length (filter (\<lambda>i. np_ne (actual ! i) (roll predicted 1 ! i)) [0..<length actual])"
    using len by (rule count_map2)
  also have "\<dots> = ?k"
    by (rule arg_cong [where f = length], rule filter_cong)
       (simp_all add: roll_1_nth [unfolded One_nat_def] assms(1))
  finally have cnt:
    "length (filter (\<lambda>b. b) (map2 np_ne actual (roll predicted 1))) = ?k" .
  have ne: "map2 np_ne actual (roll predicted 1) \<noteq> []"
    using assms len by (cases actual; cases "roll predicted 1") simp_all
  have "calculate_error_body (Some predicted) actual = Inr (Fin (real ?k / real (length actual)))"
    using len ne cnt assms by (simp add: calculate_error_body_def not_equal_def mean_def)
  then show ?thesis by (simp add: calculate_error_def try_except_Exception_def)
qed

text \<open>
  Claim C2, as amended. For two sequences of one length \<open>n\<close> with \<open>n \<ge> 1\<close>,
  \<open>calculate_error\<close> returns exactly the fraction of the positions \<open>i\<close> in \<open>0..n-1\<close>
  at which \<open>actual[i]\<close> differs from \<open>predicted[(i-1) mod n]\<close>, and that value lies
  in \<open>[0,1]\<close>. To differ is NumPy's \<open>!=\<close> on the two entries.
\<close>

theorem calculate_error_fraction:
  assumes "length predicted = length actual" and "actual \<noteq> []"
  shows "\<exists>x. calculate_error (Some predicted) actual =
               \<lparr>outcome = Returned (Some (Fin x)), error_log = []\<rparr> \<and>
             x = real (length (filter
                   (\<lambda>i. np_ne (actual ! i)
                          (predicted ! nat ((int i - 1) mod int (length actual))))
                   [0..<length actual])) / real (length actual) \<and>
             0 \<le> x \<and> x \<le> 1"
proof -
  let ?k = "length (filter
     (\<lambda>i. np_ne (actual ! i) (predicted ! nat ((int i - 1) mod int (length actual))))
     [0..<length actual])"
  have "?k \<le> length [0..<length actual]" by (rule length_filter_le)
  then have "real ?k / real (length actual) \<le> 1"
    using assms(2) by (simp add: divide_le_eq_1)
  moreover have "0 \<le> real ?k / real (length actual)" by simp
  ultimately show ?thesis
    using calculate_error_equal_length [OF assms] by simp
qed

text \<open>
  The theorem at the \<open>int64\<close> prediction \<open>[1, 2, 2]\<close> and the \<open>float64\<close> values
  \<open>[2.0, nan, 3.0]\<close>: the rolled prediction is \<open>[2, 1, 2]\<close>, which equals the first
  value and differs from the other two.
\<close>

theorem calculate_error_fraction_witness:
  "calculate_error (Some [IntV 1, IntV 2, IntV 2])
     [FloatV (Fin 2), FloatV NaN, FloatV (Fin 3)] =
     \<lparr>outcome = Returned (Some (Fin (2 / 3))), error_log = []\<rparr>"
proof -
  have h1: "length [IntV 1, IntV 2, IntV 2] =
      length [FloatV (Fin 2), FloatV NaN, FloatV (Fin 3)]" by simp
  have h2: "[FloatV (Fin 2), FloatV NaN, FloatV (Fin 3)] \<noteq> []" by simp
  have u: "[0..<3] = [0, 1, 2]" by (simp add: upt_rec)
  from calculate_error_fraction [OF h1 h2] show ?thesis
    by (auto simp: u float_ne_def int_to_float64_exact)
qed

text \<open>
  Claim C2 as stated covers length 0 as well. There both arrays are empty, \<open>np.mean\<close> of
  the empty comparison is NaN, and \<open>calculate_error\<close> returns NaN, which is no fraction
  in \<open>[0,1]\<close>.
\<close>

theorem calculate_error_empty:
  "calculate_error (Some []) [] = \<lparr>outcome = Returned (Some NaN), error_log = []\<rparr>"
  by (simp add: calculate_error_def calculate_error_body_def roll_def not_equal_def mean_def
      try_except_Exception_def)

text \<open>
  Claim C9, as amended. For every sequence \<open>actual\<close> of length \<open>n \<ge> 1\<close> that holds no
  NaN, calling \<open>calculate_error\<close> with \<open>predicted[i] = actual[(i+1) mod n]\<close> yields an
  error of exactly 0.
\<close>

theorem calculate_error_rotated_is_zero:
  assumes "1 \<le> length actual"
    and "length predicted = length actual"
    and "\<forall>i < length actual. predicted ! i = actual ! ((i + 1) mod length actual)"
    and "FloatV NaN \<notin> set actual"
  shows "calculate_error (Some predicted) actual =
           \<lparr>outcome = Returned (Some (Fin 0)), error_log = []\<rparr>"
proof -
  let ?n = "length actual"
  have ne: "actual \<noteq> []" using assms(1) by auto
  have "\<not> np_ne (actual ! i) (predicted ! nat ((int i - 1) mod int ?n))"
    if i: "i < ?n" for i
  proof -
    let ?j = "nat ((int i - 1) mod int ?n)"
    have pos: "0 < int ?n" using i by auto
    have j: "?j < ?n" using pos by (simp add: nat_less_iff)
    have "int ((?j + 1) mod ?n) = ((int i - 1) mod int ?n + 1) mod int ?n"
      using pos by (simp add: zmod_int add.commute)
    also have "\<dots> = (int i - 1 + 1) mod int ?n" by (simp add: mod_add_left_eq)
    also have "\<dots> = int i" using i by simp
    finally have "(?j + 1) mod ?n = i" by simp
    then have same: "predicted ! ?j = actual ! i" using assms(3) j by metis
    have "actual ! i \<noteq> FloatV NaN" using assms(4) i by (metis nth_mem)
    then show ?thesis using same by (simp add: np_ne_same)
  qed
  then have "length (filter
     (\<lambda>i. np_ne (actual ! i) (predicted ! nat ((int i - 1) mod int ?n))) [0..<?n]) = 0"
    by (simp add: filter_empty_conv)
  then show ?thesis
    using calculate_error_equal_length [OF assms(2) ne] by simp
qed

text \<open>The theorem at \<open>actual = [1, 2, 3]\<close> and its rotation \<open>[2, 3, 1]\<close>.\<close>

theorem calculate_error_rotated_is_zero_witness:
  "calculate_error (Some [IntV 2, IntV 3, IntV 1]) [IntV 1, IntV 2, IntV 3] =
     \<lparr>outcome = Returned (Some (Fin 0)), error_log = []\<rparr>"
proof -
  have h1: "1 \<le> length [IntV 1, IntV 2, IntV 3]" by simp
  have h2: "length [IntV 2, IntV 3, IntV 1] = length [IntV 1, IntV 2, IntV 3]" by simp
  have h3: "\<forall>i < length [IntV 1, IntV 2, IntV 3].
      [IntV 2, IntV 3, IntV 1] ! i =
      [IntV 1, IntV 2, IntV 3] ! ((i + 1) mod length [IntV 1, IntV 2, IntV 3])"
  proof (intro allI impI)
    fix i :: nat
    assume "i < length [IntV 1, IntV 2, IntV 3]"
    then consider "i = 0" | "i = 1" | "i = 2" by fastforce
    then show "[IntV 2, IntV 3, IntV 1] ! i =
        [IntV 1, IntV 2, IntV 3] ! ((i + 1) mod length [IntV 1, IntV 2, IntV 3])"
      by cases simp_all
  qed
  have h4: "FloatV NaN \<notin> set [IntV 1, IntV 2, IntV 3]" by simp
  from calculate_error_rotated_is_zero [OF h1 h2 h3 h4] show ?thesis .
qed

text \<open>
  Claim C9 as stated covers every sequence. For \<open>actual = [nan, inf]\<close> the rotated
  prediction is \<open>[inf, nan]\<close>; rolled back it meets \<open>actual\<close> entry for entry, and NaN
  differs from NaN, so the error is one half.
\<close>

theorem calculate_error_rotated_nan:
  "[FloatV PosInf, FloatV NaN] = rotate1 [FloatV NaN, FloatV PosInf] \<and>
   calculate_error (Some [FloatV PosInf, FloatV NaN]) [FloatV NaN, FloatV PosInf] =
     \<lparr>outcome = Returned (Some (Fin (1 / 2))), error_log = []\<rparr>"
  by (simp add: calculate_error_def calculate_error_body_def roll_def not_equal_def mean_def
      float_ne_def try_except_Exception_def)

text \<open>
  Claim C5, as amended. For two sequences of different lengths, neither of length 1,
  \<open>calculate_error\<close> raises nothing to its caller: the \<open>ValueError\<close> of the comparison
  is caught by the function's own handler and logged, and the call returns \<open>None\<close>. It
  neither truncates nor wraps, and it returns no number.
\<close>

theorem calculate_error_length_mismatch:
  assumes "length predicted \<noteq> length actual"
    and "length predicted \<noteq> 1" and "length actual \<noteq> 1"
  shows "calculate_error (Some predicted) actual =
           \<lparr>outcome = Returned None,
            error_log = [ValueError ''operands could not be broadcast together'']\<rparr>"
  using assms
  by (simp add: calculate_error_def calculate_error_body_def not_equal_def length_roll
      try_except_Exception_def)

theorem calculate_error_length_mismatch_witness:
  "calculate_error (Some [IntV 1, IntV 2]) [IntV 1, IntV 2, IntV 3] =
     \<lparr>outcome = Returned None,
      error_log = [ValueError ''operands could not be broadcast together'']\<rparr>"
proof -
  have "length [IntV 1, IntV 2] \<noteq> length [IntV 1, IntV 2, IntV 3]"
    "length [IntV 1, IntV 2] \<noteq> 1" "length [IntV 1, IntV 2, IntV 3] \<noteq> 1"
    by simp_all
  from calculate_error_length_mismatch [OF this] show ?thesis .
qed

text \<open>
  Claim C5 as stated asks for an error raised to the caller. On the spec's own example,
  a prediction of length 5 against 7 actual values, the call returns \<open>None\<close> instead.
\<close>

theorem calculate_error_5_against_7:
  "calculate_error (Some [IntV 1, IntV 2, IntV 3, IntV 4, IntV 5])
     [IntV 1, IntV 2, IntV 3, IntV 4, IntV 5, IntV 6, IntV 7] =
     \<lparr>outcome = Returned None,
      error_log = [ValueError ''operands could not be broadcast together'']\<rparr>"
  by (simp add: calculate_error_def calculate_error_body_def not_equal_def roll_def
      try_except_Exception_def)

text \<open>
  Claim C10. \<open>calculate_error\<close> never raises to its caller: on every input, an absent
  prediction and mismatched lengths included, it either returns the value its body
  computed and logs nothing, or it logs the exception of its body and returns \<open>None\<close>.
\<close>

theorem calculate_error_never_raises:
  "(\<exists>v. calculate_error_body pred_value real_values = Inr v \<and>
         calculate_error pred_value real_values =
           \<lparr>outcome = Returned (Some v), error_log = []\<rparr>) \<or>
   (\<exists>e. calculate_error_body pred_value real_values = Inl e \<and>
         calculate_error pred_value real_values =
           \<lparr>outcome = Returned None, error_log = [e]\<rparr>)"
proof (cases "calculate_error_body pred_value real_values")
  case (Inl e)
  then have "is_Exception e"
    by (auto simp: calculate_error_body_def not_equal_def
        split: option.splits sum.splits if_splits)
  then show ?thesis using Inl by (simp add: calculate_error_def try_except_Exception_def)
next
  case (Inr v)
  then show ?thesis by (simp add: calculate_error_def try_except_Exception_def)
qed

text \<open>
  The theorem at an absent prediction, where every entry counts as a mismatch, and at
  lengths 2 against 3, where the comparison raises.
\<close>

theorem calculate_error_never_raises_witness:
  "calculate_error None [IntV 1, IntV 2, IntV 3] =
     \<lparr>outcome = Returned (Some (Fin 1)), error_log = []\<rparr> \<and>
   calculate_error (Some [IntV 1, IntV 2]) [IntV 1, IntV 2, IntV 3] =
     \<lparr>outcome = Returned None,
      error_log = [ValueError ''operands could not be broadcast together'']\<rparr>"
  using calculate_error_never_raises [of None "[IntV 1, IntV 2, IntV 3]"]
    calculate_error_never_raises [of "Some [IntV 1, IntV 2]" "[IntV 1, IntV 2, IntV 3]"]
  by (simp add: calculate_error_def calculate_error_body_def not_equal_def roll_def mean_def
      try_except_Exception_def)

end
